theory Spec2Isabelle
  imports Main
begin

section \<open>Values, references and the program state\<close>

text \<open>
  Objects (class instances, producer objects, containers) are identified by a reference;
  \<open>===\<close> on two objects compares references. Primitive values compare by content.
\<close>

type_synonym ref = nat

datatype val = Undefined | Num int | Str string | Obj ref

text \<open>
  The program state: the private \<open>cache\<close> map of every \<open>Box\<close> object (a JavaScript
  \<open>Map\<close> keyed by the producer object, that is by its reference), the allocator (every
  reference below \<open>nextref\<close> is in use), and the rest of the application's state, which
  only producer logic and class constructors read and write.
\<close>

record 's world =
  caches :: "ref \<Rightarrow> (ref \<rightharpoonup> val)"
  nextref :: ref
  user :: 's

text \<open>
  A computation runs on the state and either returns a value or throws one (\<open>Inl\<close>);
  the state it leaves behind is kept in both cases, as side effects done before a
  \<open>throw\<close> are not undone.
\<close>

type_synonym ('s, 'a) comp = "'s world \<Rightarrow> (val + 'a) \<times> 's world"

text \<open>
  \<open>type Constructor<T> = { init(box: Box): T } | { new (): T }\<close>.
  A producer is an object with an identity; it may have an \<open>init\<close> member (called with
  the container) and, when it is a class, a constructor body (run on the freshly
  allocated \<open>this\<close> and the arguments; its value is what the body returns, \<open>undefined\<close> when
  it has no \<open>return\<close>). A class with a static \<open>init\<close> has both.
\<close>

record 's producer =
  ident :: ref
  init :: "(ref \<Rightarrow> ('s, val) comp) option"
  ctor :: "ref \<Rightarrow> val list \<Rightarrow> ('s, val) comp"

text \<open>
  The expression \<open>new C(...args)\<close>: a fresh object is allocated and the constructor body
  runs with it as \<open>this\<close>. When the body returns an object, that object is the value of
  the expression; otherwise the value is the new object.
\<close>

fun is_object :: "val \<Rightarrow> bool" where
  "is_object (Obj r) = True"
| "is_object Undefined = False"
| "is_object (Num n) = False"
| "is_object (Str s) = False"

definition new_object :: "(ref \<Rightarrow> val list \<Rightarrow> ('s, val) comp) \<Rightarrow> val list \<Rightarrow> ('s, val) comp" where
  "new_object body args w =
     (let this = nextref w in
      case body this args (w\<lparr>nextref := Suc this\<rparr>) of
        (Inl e, w') \<Rightarrow> (Inl e, w')
      | (Inr r, w') \<Rightarrow> (Inr (if is_object r then r else Obj this), w'))"

text \<open>A plain object is not constructible: \<open>new\<close> on it throws a \<open>TypeError\<close>.\<close>

definition not_a_constructor :: "ref \<Rightarrow> val list \<Rightarrow> ('s, val) comp" where
  "not_a_constructor this args w = (Inl (Str ''TypeError''), w)"

text \<open>
  \<open>factory(init)\<close> returns the new object \<open>{ init }\<close>;
  \<open>constant(value)\<close> returns the new object \<open>{ init: () => value }\<close>.
\<close>

definition factory :: "(ref \<Rightarrow> ('s, val) comp) \<Rightarrow> 's world \<Rightarrow> 's producer \<times> 's world" where
  "factory f w =
     (\<lparr>ident = nextref w, init = Some f, ctor = not_a_constructor\<rparr>,
      w\<lparr>nextref := Suc (nextref w)\<rparr>)"

definition constant_of :: "val \<Rightarrow> 's world \<Rightarrow> 's producer \<times> 's world" where
  "constant_of v w =
     (\<lparr>ident = nextref w, init = Some (\<lambda>box w'. (Inr v, w')), ctor = not_a_constructor\<rparr>,
      w\<lparr>nextref := Suc (nextref w)\<rparr>)"

section \<open>The container\<close>


text \<open>\<open>box.cache.set(key, value)\<close>\<close>

definition cache_set :: "ref \<Rightarrow> ref \<Rightarrow> val \<Rightarrow> 's world \<Rightarrow> 's world" where
  "cache_set box key v w = w\<lparr>caches := (caches w)(box := (caches w box)(key \<mapsto> v))\<rparr>"

text \<open>
  \<open>Box.new\<close>: \<open>"init" in constructor ? constructor.init(this) : new constructor()\<close>
\<close>

definition Box_new :: "ref \<Rightarrow> 's producer \<Rightarrow> ('s, val) comp" where
  "Box_new box constructor w =
     (case init constructor of
        Some f \<Rightarrow> f box w
      | None \<Rightarrow> new_object (ctor constructor) [] w)"

text \<open>
  \<open>Box.get\<close>: the cached instance if the cache has the key (\<open>has\<close> is true also for a
  stored \<open>undefined\<close>); otherwise the value of \<open>this.new(constructor)\<close>, stored after
  the creation returned. A creation that throws leaves \<open>get\<close> before the \<open>set\<close>.
\<close>

definition Box_get :: "ref \<Rightarrow> 's producer \<Rightarrow> ('s, val) comp" where
  "Box_get box constructor w =
     (case caches w box (ident constructor) of
        Some v \<Rightarrow> (Inr v, w)
      | None \<Rightarrow>
          (case Box_new box constructor w of
             (Inl e, w') \<Rightarrow> (Inl e, w')
           | (Inr v, w') \<Rightarrow> (Inr v, cache_set box (ident constructor) v w')))"

text \<open>\<open>Box.mock(box, constructor, value)\<close>\<close>

definition Box_mock :: "ref \<Rightarrow> 's producer \<Rightarrow> val \<Rightarrow> 's world \<Rightarrow> 's world" where
  "Box_mock box constructor v w = cache_set box (ident constructor) v w"

section \<open>The scoped builder\<close>

text \<open>
  \<open>args.map(f)\<close> where \<open>f\<close> has effects: the elements are visited from left to right, and
  the first throw ends the traversal.
\<close>

fun map_args :: "('p \<Rightarrow> ('s, val) comp) \<Rightarrow> 'p list \<Rightarrow> ('s, val list) comp" where
  "map_args f [] w = (Inr [], w)"
| "map_args f (arg # args) w =
     (case f arg w of
        (Inl e, w') \<Rightarrow> (Inl e, w')
      | (Inr v, w') \<Rightarrow>
          (case map_args f args w' of
             (Inl e, w'') \<Rightarrow> (Inl e, w'')
           | (Inr vs, w'') \<Rightarrow> (Inr (v # vs), w'')))"

text \<open>
  \<open>class Construct\<close> holds the container and the target class; of the target class only
  its constructor body matters here. The builder is used once and dropped, so it is a
  value of the model and not an object with an identity.
\<close>

record 's Construct =
  box :: ref
  construct :: "ref \<Rightarrow> val list \<Rightarrow> ('s, val) comp"

definition Box_for :: "ref \<Rightarrow> (ref \<Rightarrow> val list \<Rightarrow> ('s, val) comp) \<Rightarrow> 's Construct" where
  "Box_for this constructor = \<lparr>box = this, construct = constructor\<rparr>"

definition Construct_new :: "'s Construct \<Rightarrow> 's producer list \<Rightarrow> ('s, val) comp" where
  "Construct_new c args w =
     (case map_args (Box_new (box c)) args w of
        (Inl e, w') \<Rightarrow> (Inl e, w')
      | (Inr instances, w') \<Rightarrow> new_object (construct c) instances w')"

definition Construct_get :: "'s Construct \<Rightarrow> 's producer list \<Rightarrow> ('s, val) comp" where
  "Construct_get c args w =
     (case map_args (Box_get (box c)) args w of
        (Inl e, w') \<Rightarrow> (Inl e, w')
      | (Inr instances, w') \<Rightarrow> new_object (construct c) instances w')"

section \<open>Client programs and fixtures used to state the properties\<close>

text \<open>
  Producer logic and constructor bodies are supplied by the application. The conditions on
  such code that are used below:
  \<^item> it never gives back an allocated reference (true of all code);
  \<^item> a constructor is plain when it never returns an object, so that \<open>new\<close> yields the
    object it allocated;
  \<^item> it keeps the entry of key \<open>k\<close> in the cache of container \<open>b\<close>, that is, it does not
    override it (true of code that performs no \<open>Box.mock(b, k, ...)\<close> and takes part in no
    dependency cycle);
  \<^item> it keeps the key \<open>k\<close> in the cache of \<open>b\<close> (true of all code, the cache being private
    and never deleted from);
  \<^item> it leaves every cache as it is (true of code that uses no container).
\<close>

definition alloc_mono :: "('s, 'a) comp \<Rightarrow> bool" where
  "alloc_mono f \<longleftrightarrow> (\<forall>w. nextref w \<le> nextref (snd (f w)))"

definition plain_constructor :: "(ref \<Rightarrow> val list \<Rightarrow> ('s, val) comp) \<Rightarrow> bool" where
  "plain_constructor body \<longleftrightarrow>
     (\<forall>this args w r w'. body this args w = (Inr r, w') \<longrightarrow> \<not> is_object r)"



definition cache_frame :: "('s, 'a) comp \<Rightarrow> bool" where
  "cache_frame f \<longleftrightarrow> (\<forall>w. caches (snd (f w)) = caches w)"

text \<open>
  The same conditions for the creation logic of a producer: for its \<open>init\<close> member if it
  has one (whatever container it is given), for its constructor body (run without
  arguments) otherwise.
\<close>

definition producer_alloc_mono :: "'s producer \<Rightarrow> bool" where
  "producer_alloc_mono p \<longleftrightarrow>
     (case init p of
        Some f \<Rightarrow> \<forall>b. alloc_mono (f b)
      | None \<Rightarrow> \<forall>this. alloc_mono (ctor p this []))"



definition producer_cache_frame :: "'s producer \<Rightarrow> bool" where
  "producer_cache_frame p \<longleftrightarrow>
     (case init p of
        Some f \<Rightarrow> \<forall>b. cache_frame (f b)
      | None \<Rightarrow> \<forall>this. cache_frame (ctor p this []))"

text \<open>
  A client of one container: a sequence of calls on it whose results are dropped and whose
  exceptions are caught. \<open>tame b k\<close> says that the application code a call runs keeps the
  entry of key \<open>k\<close> of container \<open>b\<close>, \<open>gentle b k\<close> that it keeps the key; \<open>replaces k\<close>
  holds of the overrides of key \<open>k\<close>.
\<close>

datatype 's call =
    CallNew "'s producer"
  | CallGet "'s producer"
  | CallMock "'s producer" val
  | CallForNew "ref \<Rightarrow> val list \<Rightarrow> ('s, val) comp" "'s producer list"
  | CallForGet "ref \<Rightarrow> val list \<Rightarrow> ('s, val) comp" "'s producer list"






text \<open>
  The fixtures follow the repository's tests: the application state counts how often
  instrumented creation logic ran and holds the fields of the objects built.
\<close>

record app =
  runs :: nat
  props :: "ref \<Rightarrow> val list"

definition app0 :: "app world" where
  "app0 = \<lparr>caches = (\<lambda>_. Map.empty), nextref = 10, user = \<lparr>runs = 0, props = (\<lambda>_. [])\<rparr>\<rparr>"

text \<open>\<open>class Counted { constructor() { runs++ } }\<close>\<close>

definition Counted_body :: "ref \<Rightarrow> val list \<Rightarrow> (app, val) comp" where
  "Counted_body this args w =
     (Inr Undefined, w\<lparr>user := (user w)\<lparr>runs := Suc (runs (user w))\<rparr>\<rparr>)"

definition Counted :: "app producer" where
  "Counted = \<lparr>ident = 1, init = None, ctor = Counted_body\<rparr>"

text \<open>
  A factory that throws the first time it runs and returns 1 afterwards.
\<close>

definition Flaky_init :: "ref \<Rightarrow> (app, val) comp" where
  "Flaky_init b w =
     (if runs (user w) = 0 then Inl (Str ''boom'') else Inr (Num 1),
      w\<lparr>user := (user w)\<lparr>runs := Suc (runs (user w))\<rparr>\<rparr>)"

definition Flaky :: "app producer" where
  "Flaky = \<lparr>ident = 2, init = Some Flaky_init, ctor = not_a_constructor\<rparr>"

text \<open>
  \<open>class WithInit { constructor() { runs++ }  static init(box) { return "from init" } }\<close>
\<close>

definition WithInit_init :: "ref \<Rightarrow> (app, val) comp" where
  "WithInit_init b w = (Inr (Str ''from init''), w)"

definition WithInit :: "app producer" where
  "WithInit = \<lparr>ident = 3, init = Some WithInit_init, ctor = Counted_body\<rparr>"

text \<open>\<open>class Holder { constructor(...deps) { this.props = deps } }\<close>\<close>

definition Holder_body :: "ref \<Rightarrow> val list \<Rightarrow> (app, val) comp" where
  "Holder_body this args w =
     (Inr Undefined, w\<lparr>user := (user w)\<lparr>props := (props (user w))(this := args)\<rparr>\<rparr>)"

text \<open>The state after \<open>box.get(Counted)\<close> on the container 0.\<close>

definition app1 :: "app world" where
  "app1 = snd (Box_get 0 Counted app0)"

text \<open>The state after \<open>box.get(WithInit)\<close> as well.\<close>

definition app3 :: "app world" where
  "app3 = snd (Box_get 0 WithInit app1)"

text \<open>
  A factory whose \<open>init\<close> overrides the entry of \<open>Counted\<close>:
  \<open>factory((box) => { Box.mock(box, Counted, 9); return 0 })\<close>.
\<close>

definition Meddler_init :: "ref \<Rightarrow> (app, val) comp" where
  "Meddler_init b w = (Inr (Num 0), Box_mock b Counted (Num 9) w)"

definition Meddler :: "app producer" where
  "Meddler = \<lparr>ident = 4, init = Some Meddler_init, ctor = not_a_constructor\<rparr>"

text \<open>
  \<open>const Config = constant(obj)\<close> for an object \<open>obj\<close> made earlier (reference 5), and the
  state after \<open>box.get(Config)\<close> on the container 0.
\<close>

definition Config :: "app producer" where
  "Config = fst (constant_of (Obj 5) app0)"

definition app2 :: "app world" where
  "app2 = snd (Box_get 0 Config (snd (constant_of (Obj 5) app0)))"

text \<open>
  \<open>class Single { constructor(...deps) { runs++; return obj } }\<close>, whose constructor returns
  the object \<open>obj\<close> made earlier (reference 5) in place of the new one.
\<close>

definition Single_body :: "ref \<Rightarrow> val list \<Rightarrow> (app, val) comp" where
  "Single_body this args w =
     (Inr (Obj 5), w\<lparr>user := (user w)\<lparr>runs := Suc (runs (user w))\<rparr>\<rparr>)"

definition Single :: "app producer" where
  "Single = \<lparr>ident = 6, init = None, ctor = Single_body\<rparr>"

text \<open>
  A factory that overrides its own entry and then throws:
  \<open>const SelfMock = factory((box) => { runs++; Box.mock(box, SelfMock, 9); throw "boom" })\<close>.
  \<open>Box.mock\<close> uses only the identity of the producer it is given, which is 7 here.
\<close>

definition SelfMock_init :: "ref \<Rightarrow> (app, val) comp" where
  "SelfMock_init b w =
     (Inl (Str ''boom''),
      cache_set b 7 (Num 9) (w\<lparr>user := (user w)\<lparr>runs := Suc (runs (user w))\<rparr>\<rparr>))"

definition SelfMock :: "app producer" where
  "SelfMock = \<lparr>ident = 7, init = Some SelfMock_init, ctor = not_a_constructor\<rparr>"

section \<open>Memoization\<close>

lemma factory_producer:
  "Box_new b (fst (factory f w)) w' = f b w' \<and> ident (fst (factory f w)) = nextref w"
  by (simp add: factory_def Box_new_def)

lemma constant_producer:
  "Box_new b (fst (constant_of v w)) w' = (Inr v, w') \<and> ident (fst (constant_of v w)) = nextref w"
  by (simp add: constant_of_def Box_new_def)

lemma Box_get_hit:
  "caches w b (ident P) = Some v \<Longrightarrow> Box_get b P w = (Inr v, w)"
  by (simp add: Box_get_def)

lemma cache_set_lookup [simp]:
  "caches (cache_set b k v w) b' k' = (if b' = b \<and> k' = k then Some v else caches w b' k')"
  by (simp add: cache_set_def)

lemma cache_set_nextref [simp]: "nextref (cache_set b k v w) = nextref w"
  by (simp add: cache_set_def)

lemma cache_set_user [simp]: "user (cache_set b k v w) = user w"
  by (simp add: cache_set_def)

lemma Box_get_miss:
  "caches w b (ident P) = None \<Longrightarrow> Box_new b P w = (Inr v, w') \<Longrightarrow>
   Box_get b P w = (Inr v, cache_set b (ident P) v w')"
  by (simp add: Box_get_def)

lemma Box_get_repeat_hit:
  "caches w b (ident P) = Some v \<Longrightarrow>
   map_args (Box_get b) (replicate n P) w = (Inr (replicate n v), w)"
  by (induction n) (simp_all add: Box_get_hit)

text \<open>
  C1. \<open>Box.get\<close> is memoized per producer identity. On a hit the entry is returned and
  the state is left as it was. On a miss the result of \<open>Box.new\<close> is stored and
  returned; from then on any number of calls return that same value, and the state after
  them is the state that the single run of the creation logic left, with the one cache
  entry added: the creation logic ran exactly once.
\<close>

theorem Box_get_memoized:
  "(caches w b (ident P) = Some v \<longrightarrow> Box_get b P w = (Inr v, w)) \<and>
   (caches w b (ident P) = None \<longrightarrow> Box_new b P w = (Inr v, w') \<longrightarrow>
      Box_get b P w = (Inr v, cache_set b (ident P) v w') \<and>
      (\<forall>n. map_args (Box_get b) (replicate (Suc n) P) w =
            (Inr (replicate (Suc n) v), cache_set b (ident P) v w')))"
  by (simp add: Box_get_hit Box_get_miss Box_get_repeat_hit)

theorem Box_get_memoized_witness:
  "caches app0 0 (ident Counted) = None \<and>
   fst (Box_new 0 Counted app0) = Inr (Obj 10) \<and>
   fst (map_args (Box_get 0) (replicate (Suc 2) Counted) app0) = Inr [Obj 10, Obj 10, Obj 10] \<and>
   runs (user (snd (map_args (Box_get 0) (replicate (Suc 2) Counted) app0))) = 1 \<and>
   caches (snd (Box_get 0 Counted app0)) 0 (ident Counted) = Some (Obj 10) \<and>
   Box_get 0 Counted (snd (Box_get 0 Counted app0)) = (Inr (Obj 10), snd (Box_get 0 Counted app0))"
proof -
  have miss: "caches app0 0 (ident Counted) = None"
    by (simp add: app0_def Counted_def)
  obtain w' where new: "Box_new 0 Counted app0 = (Inr (Obj 10), w')" and r: "runs (user w') = 1"
    by (simp add: Box_new_def new_object_def Counted_def Counted_body_def app0_def)
  from Box_get_memoized [of app0 0 Counted "Obj 10" w'] miss new
  have first: "Box_get 0 Counted app0 = (Inr (Obj 10), cache_set 0 (ident Counted) (Obj 10) w')"
    and all: "map_args (Box_get 0) (replicate (Suc 2) Counted) app0 =
              (Inr (replicate (Suc 2) (Obj 10)), cache_set 0 (ident Counted) (Obj 10) w')"
    by blast+
  have hit: "caches (cache_set 0 (ident Counted) (Obj 10) w') 0 (ident Counted) = Some (Obj 10)"
    by simp
  from Box_get_memoized [of "cache_set 0 (ident Counted) (Obj 10) w'" 0 Counted "Obj 10"] hit
  have again: "Box_get 0 Counted (cache_set 0 (ident Counted) (Obj 10) w') =
               (Inr (Obj 10), cache_set 0 (ident Counted) (Obj 10) w')"
    by blast
  show ?thesis
    using miss new first all again r by (simp add: numeral_2_eq_2)
qed

section \<open>Overrides\<close>

lemma Box_get_after_mock:
  "ident Q = ident P \<Longrightarrow> Box_get b Q (Box_mock b P V w) = (Inr V, Box_mock b P V w)"
  by (simp add: Box_get_def Box_mock_def)

text \<open>
  C2. \<open>Box.mock(box, P, V)\<close> writes \<open>V\<close> under \<open>P\<close>'s identity whatever the cache held
  and changes nothing else. Afterwards \<open>Box.get(P)\<close> returns \<open>V\<close> and leaves the state as
  it is, any number of times; the answer is the same whatever \<open>init\<close> and constructor
  \<open>P\<close> has, so neither is run. This holds from any state: before the first \<open>get\<close>, and
  after a \<open>get\<close> that cached an instance.
\<close>

theorem Box_mock_overrides:
  "caches (Box_mock b P V w) = (caches w)(b := (caches w b)(ident P \<mapsto> V)) \<and>
   nextref (Box_mock b P V w) = nextref w \<and>
   user (Box_mock b P V w) = user w \<and>
   Box_get b P (Box_mock b P V w) = (Inr V, Box_mock b P V w) \<and>
   Box_get b (P\<lparr>init := i, ctor := c\<rparr>) (Box_mock b P V w) = (Inr V, Box_mock b P V w) \<and>
   map_args (Box_get b) (replicate n P) (Box_mock b P V w) =
     (Inr (replicate n V), Box_mock b P V w) \<and>
   Box_get b P (Box_mock b P V (snd (Box_get b P w))) =
     (Inr V, Box_mock b P V (snd (Box_get b P w)))"
proof -
  have "caches (Box_mock b P V w) b (ident P) = Some V"
    by (simp add: Box_mock_def)
  then have "map_args (Box_get b) (replicate n P) (Box_mock b P V w) =
      (Inr (replicate n V), Box_mock b P V w)"
    by (rule Box_get_repeat_hit)
  then show ?thesis
    by (simp add: Box_get_after_mock) (simp add: Box_mock_def cache_set_def)
qed

theorem Box_mock_overrides_witness:
  "fst (Box_get 0 Counted (Box_mock 0 Counted (Str ''mocked'') app0)) = Inr (Str ''mocked'') \<and>
   runs (user (snd (Box_get 0 Counted (Box_mock 0 Counted (Str ''mocked'') app0)))) = 0 \<and>
   fst (Box_get 0 Counted app0) = Inr (Obj 10) \<and>
   fst (Box_get 0 Counted (Box_mock 0 Counted (Str ''mocked'') (snd (Box_get 0 Counted app0))))
     = Inr (Str ''mocked'')"
proof -
  have "fst (Box_get 0 Counted app0) = Inr (Obj 10)"
    by (simp add: Box_get_def Box_new_def new_object_def Counted_def Counted_body_def app0_def)
  with Box_mock_overrides [of 0 Counted "Str ''mocked''" app0] show ?thesis
    by (simp add: app0_def)
qed

section \<open>Failures of the creation logic\<close>

lemma new_object_cache_frame:
  "cache_frame (body (nextref w) args) \<Longrightarrow> caches (snd (new_object body args w)) = caches w"
proof -
  assume "cache_frame (body (nextref w) args)"
  then have "caches (snd (body (nextref w) args (w\<lparr>nextref := Suc (nextref w)\<rparr>)))
      = caches (w\<lparr>nextref := Suc (nextref w)\<rparr>)"
    unfolding cache_frame_def by blast
  then show ?thesis
    by (auto simp: new_object_def Let_def split: prod.splits sum.splits)
qed

lemma Box_new_cache_frame:
  "producer_cache_frame p \<Longrightarrow> caches (snd (Box_new b p w)) = caches w"
  by (cases "init p")
    (simp_all add: producer_cache_frame_def Box_new_def new_object_cache_frame cache_frame_def)

text \<open>
  C5, as amended. A throw of the creation logic is the outcome of \<open>Box.new\<close>, and on a miss
  of \<open>Box.get\<close>, with the thrown value and the state as the logic left them: \<open>get\<close> itself
  writes no entry. If the entry is still absent then, the next \<open>Box.get\<close> runs \<open>Box.new\<close>
  again and stores its result if it returns; if the logic stored one under its own
  identity before it threw, the next \<open>Box.get\<close> returns that entry. The entry is still
  absent whenever the creation logic leaves the caches alone.
\<close>

theorem creation_failure_propagates:
  "(init P = Some f \<longrightarrow> f b w = (Inl e, w') \<longrightarrow> Box_new b P w = (Inl e, w')) \<and>
   (init P = None \<longrightarrow> ctor P (nextref w) [] (w\<lparr>nextref := Suc (nextref w)\<rparr>) = (Inl e, w') \<longrightarrow>
      Box_new b P w = (Inl e, w')) \<and>
   (caches w b (ident P) = None \<longrightarrow> Box_new b P w = (Inl e, w') \<longrightarrow>
      Box_get b P w = (Inl e, w') \<and>
      (caches w' b (ident P) = None \<longrightarrow>
         Box_get b P w' =
           (case Box_new b P w' of
              (Inl e', w'') \<Rightarrow> (Inl e', w'')
            | (Inr v, w'') \<Rightarrow> (Inr v, cache_set b (ident P) v w''))) \<and>
      (\<forall>x. caches w' b (ident P) = Some x \<longrightarrow> Box_get b P w' = (Inr x, w')) \<and>
      (producer_cache_frame P \<longrightarrow> caches w' b (ident P) = None))"
proof (intro conjI impI allI)
  assume "init P = Some f" "f b w = (Inl e, w')"
  then show "Box_new b P w = (Inl e, w')"
    by (simp add: Box_new_def)
next
  assume "init P = None" "ctor P (nextref w) [] (w\<lparr>nextref := Suc (nextref w)\<rparr>) = (Inl e, w')"
  then show "Box_new b P w = (Inl e, w')"
    by (simp add: Box_new_def new_object_def)
next
  assume "caches w b (ident P) = None" "Box_new b P w = (Inl e, w')"
  then show "Box_get b P w = (Inl e, w')"
    by (simp add: Box_get_def)
next
  assume "caches w' b (ident P) = None"
  then show "Box_get b P w' =
           (case Box_new b P w' of
              (Inl e', w'') \<Rightarrow> (Inl e', w'')
            | (Inr v, w'') \<Rightarrow> (Inr v, cache_set b (ident P) v w''))"
    by (simp add: Box_get_def)
next
  fix x assume "caches w' b (ident P) = Some x"
  then show "Box_get b P w' = (Inr x, w')"
    by (rule Box_get_hit)
next
  assume miss: "caches w b (ident P) = None" and new: "Box_new b P w = (Inl e, w')"
    and frame: "producer_cache_frame P"
  from frame have "caches (snd (Box_new b P w)) = caches w"
    by (rule Box_new_cache_frame)
  with miss new show "caches w' b (ident P) = None"
    by simp
qed

theorem creation_failure_propagates_witness:
  "Box_new 0 Flaky app0 = (Inl (Str ''boom''), app0\<lparr>user := (user app0)\<lparr>runs := 1\<rparr>\<rparr>) \<and>
   Box_get 0 Flaky app0 = (Inl (Str ''boom''), app0\<lparr>user := (user app0)\<lparr>runs := 1\<rparr>\<rparr>) \<and>
   caches (snd (Box_get 0 Flaky app0)) 0 (ident Flaky) = None \<and>
   fst (Box_get 0 Flaky (snd (Box_get 0 Flaky app0))) = Inr (Num 1) \<and>
   runs (user (snd (Box_get 0 Flaky (snd (Box_get 0 Flaky app0))))) = 2 \<and>
   caches (snd (Box_get 0 Flaky (snd (Box_get 0 Flaky app0)))) 0 (ident Flaky) = Some (Num 1)"
proof -
  let ?w1 = "app0\<lparr>user := (user app0)\<lparr>runs := 1\<rparr>\<rparr>"
  have i: "init Flaky = Some Flaky_init"
    by (simp add: Flaky_def)
  have f: "Flaky_init 0 app0 = (Inl (Str ''boom''), ?w1)"
    by (simp add: Flaky_init_def app0_def)
  have miss: "caches app0 0 (ident Flaky) = None"
    by (simp add: app0_def)
  have frame: "producer_cache_frame Flaky"
    by (simp add: producer_cache_frame_def cache_frame_def Flaky_def Flaky_init_def)
  from creation_failure_propagates [of Flaky Flaky_init 0 app0 "Str ''boom''" ?w1] i f
  have new: "Box_new 0 Flaky app0 = (Inl (Str ''boom''), ?w1)"
    by blast
  from creation_failure_propagates [of Flaky Flaky_init 0 app0 "Str ''boom''" ?w1] miss new frame
  have miss1: "caches ?w1 0 (ident Flaky) = None"
    by blast
  from creation_failure_propagates [of Flaky Flaky_init 0 app0 "Str ''boom''" ?w1] miss new miss1
  have get1: "Box_get 0 Flaky app0 = (Inl (Str ''boom''), ?w1)"
    and get2: "Box_get 0 Flaky ?w1 =
      (case Box_new 0 Flaky ?w1 of
         (Inl e', w'') \<Rightarrow> (Inl e', w'')
       | (Inr v, w'') \<Rightarrow> (Inr v, cache_set 0 (ident Flaky) v w''))"
    by blast+
  have new2: "Box_new 0 Flaky ?w1 = (Inr (Num 1), app0\<lparr>user := (user app0)\<lparr>runs := 2\<rparr>\<rparr>)"
    by (simp add: Box_new_def Flaky_def Flaky_init_def app0_def)
  show ?thesis
    using new get1 get2 miss1 new2 by simp
qed

text \<open>
  C5 as stated fails for a producer that stores an entry under its own identity before it
  throws: the failed \<open>box.get(SelfMock)\<close> leaves the entry 9, and the next
  \<open>box.get(SelfMock)\<close> returns it without running the creation logic a second time.
\<close>

theorem failure_not_memoized_counterexample:
  "fst (Box_get 0 SelfMock app0) = Inl (Str ''boom'') \<and>
   caches (snd (Box_get 0 SelfMock app0)) 0 (ident SelfMock) = Some (Num 9) \<and>
   fst (Box_get 0 SelfMock (snd (Box_get 0 SelfMock app0))) = Inr (Num 9) \<and>
   runs (user (snd (Box_get 0 SelfMock (snd (Box_get 0 SelfMock app0))))) = 1"
  by (simp add: Box_get_def Box_new_def SelfMock_def SelfMock_init_def app0_def cache_set_def)

section \<open>Transient creation\<close>

lemma new_object_result:
  "body (nextref w) args (w\<lparr>nextref := Suc (nextref w)\<rparr>) = (Inr r, w') \<Longrightarrow>
   new_object body args w = (Inr (if is_object r then r else Obj (nextref w)), w')"
  by (simp add: new_object_def)

lemma new_object_value:
  assumes "plain_constructor body" and "new_object body args w = (Inr v, w')"
  shows "v = Obj (nextref w)"
proof -
  from assms(2) obtain r where
    body: "body (nextref w) args (w\<lparr>nextref := Suc (nextref w)\<rparr>) = (Inr r, w')"
    and v: "v = (if is_object r then r else Obj (nextref w))"
    by (auto simp: new_object_def Let_def split: prod.splits sum.splits)
  from assms(1) body have "\<not> is_object r"
    unfolding plain_constructor_def by blast
  with v show ?thesis
    by simp
qed

lemma new_object_allocates:
  "alloc_mono (body (nextref w) args) \<Longrightarrow> nextref w < nextref (snd (new_object body args w))"
proof -
  assume "alloc_mono (body (nextref w) args)"
  then have "nextref (w\<lparr>nextref := Suc (nextref w)\<rparr>)
      \<le> nextref (snd (body (nextref w) args (w\<lparr>nextref := Suc (nextref w)\<rparr>)))"
    unfolding alloc_mono_def by blast
  then show ?thesis
    by (auto simp: new_object_def Let_def split: prod.splits sum.splits)
qed

text \<open>
  C8. \<open>Box.new\<close> is the creation logic and nothing else: with an \<open>init\<close> member it is
  \<open>init\<close> applied to the container, on the state as it is, whatever the cache holds;
  without one it is \<open>new P()\<close> with no arguments, whose value is the object the constructor
  returns, or the new object when it returns none, and the caches afterwards are those
  the constructor body left. Two successive calls are two runs of the creation logic, one
  per call, and return what the two runs return. For a class with a plain constructor,
  the canonical non-constant creation logic, these are the two objects allocated by the
  two calls, and they differ. When the creation logic leaves the caches alone, they are
  after the call what they were before it.
\<close>

theorem Box_new_transient:
  "(init P = Some f \<longrightarrow> Box_new b P w = f b w) \<and>
   (init P = Some f \<longrightarrow> f b w = (Inr v1, w1) \<longrightarrow> f b w1 = (Inr v2, w2) \<longrightarrow>
      map_args (Box_new b) [P, P] w = (Inr [v1, v2], w2)) \<and>
   (init P = None \<longrightarrow>
      Box_new b P w = new_object (ctor P) [] w \<and>
      caches (snd (Box_new b P w)) =
        caches (snd (ctor P (nextref w) [] (w\<lparr>nextref := Suc (nextref w)\<rparr>)))) \<and>
   (init P = None \<longrightarrow>
      ctor P (nextref w) [] (w\<lparr>nextref := Suc (nextref w)\<rparr>) = (Inr r, w') \<longrightarrow>
      Box_new b P w = (Inr (if is_object r then r else Obj (nextref w)), w')) \<and>
   (init P = None \<longrightarrow> plain_constructor (ctor P) \<longrightarrow> (\<forall>this. alloc_mono (ctor P this [])) \<longrightarrow>
      Box_new b P w = (Inr v1, w1) \<longrightarrow> Box_new b P w1 = (Inr v2, w2) \<longrightarrow>
      v1 = Obj (nextref w) \<and> v2 = Obj (nextref w1) \<and> v1 \<noteq> v2 \<and>
      map_args (Box_new b) [P, P] w = (Inr [v1, v2], w2)) \<and>
   (producer_cache_frame P \<longrightarrow> caches (snd (Box_new b P w)) = caches w)"
proof (intro conjI impI)
  assume "init P = Some f"
  then show "Box_new b P w = f b w"
    by (simp add: Box_new_def)
next
  assume "init P = Some f" "f b w = (Inr v1, w1)" "f b w1 = (Inr v2, w2)"
  then show "map_args (Box_new b) [P, P] w = (Inr [v1, v2], w2)"
    by (simp add: Box_new_def)
next
  assume "init P = None"
  then show "Box_new b P w = new_object (ctor P) [] w"
    by (simp add: Box_new_def)
next
  assume "init P = None"
  then show "caches (snd (Box_new b P w)) =
      caches (snd (ctor P (nextref w) [] (w\<lparr>nextref := Suc (nextref w)\<rparr>)))"
    by (auto simp: Box_new_def new_object_def Let_def split: prod.splits sum.splits)
next
  assume "init P = None" "ctor P (nextref w) [] (w\<lparr>nextref := Suc (nextref w)\<rparr>) = (Inr r, w')"
  then show "Box_new b P w = (Inr (if is_object r then r else Obj (nextref w)), w')"
    using new_object_result [of "ctor P" w "[]" r w'] by (simp add: Box_new_def)
next
  assume cls: "init P = None" and plain: "plain_constructor (ctor P)"
    and mono: "\<forall>this. alloc_mono (ctor P this [])"
    and one: "Box_new b P w = (Inr v1, w1)" and two: "Box_new b P w1 = (Inr v2, w2)"
  from cls one have n1: "new_object (ctor P) [] w = (Inr v1, w1)"
    by (simp add: Box_new_def)
  from cls two have n2: "new_object (ctor P) [] w1 = (Inr v2, w2)"
    by (simp add: Box_new_def)
  from mono have "nextref w < nextref (snd (new_object (ctor P) [] w))"
    by (simp add: new_object_allocates)
  with n1 have lt: "nextref w < nextref w1"
    by simp
  show "v1 = Obj (nextref w)"
    using plain n1 by (rule new_object_value)
  show "v2 = Obj (nextref w1)"
    using plain n2 by (rule new_object_value)
  show "v1 \<noteq> v2"
    using new_object_value [OF plain n1] new_object_value [OF plain n2] lt by simp
  show "map_args (Box_new b) [P, P] w = (Inr [v1, v2], w2)"
    using one two by simp
next
  assume "producer_cache_frame P"
  then show "caches (snd (Box_new b P w)) = caches w"
    by (rule Box_new_cache_frame)
qed

theorem Box_new_transient_witness:
  "fst (Box_new 0 WithInit app0) = Inr (Str ''from init'') \<and>
   fst (Box_new 0 Counted app0) = Inr (Obj 10) \<and>
   fst (Box_new 0 Counted (snd (Box_new 0 Counted app0))) = Inr (Obj 11) \<and>
   runs (user (snd (Box_new 0 Counted (snd (Box_new 0 Counted app0))))) = 2 \<and>
   caches (snd (Box_new 0 Counted (snd (Box_new 0 Counted app0)))) = caches app0 \<and>
   fst (Box_new 0 Single app0) = Inr (Obj 5) \<and>
   fst (Box_new 0 Single (snd (Box_new 0 Single app0))) = Inr (Obj 5) \<and>
   runs (user (snd (Box_new 0 Single (snd (Box_new 0 Single app0))))) = 2 \<and>
   fst (map_args (Box_new 0) [WithInit, WithInit] app0)
     = Inr [Str ''from init'', Str ''from init'']"
proof -
  have i: "init WithInit = Some WithInit_init" and c: "init Counted = None"
    and s: "init Single = None"
    by (simp_all add: WithInit_def Counted_def Single_def)
  have m: "\<forall>this. alloc_mono (ctor Counted this [])"
    by (simp add: alloc_mono_def Counted_def Counted_body_def)
  have p: "plain_constructor (ctor Counted)"
    by (simp add: plain_constructor_def Counted_def Counted_body_def)
  define w1 where "w1 = snd (Box_new 0 Counted app0)"
  define w2 where "w2 = snd (Box_new 0 Counted w1)"
  have one: "Box_new 0 Counted app0 = (Inr (Obj 10), w1)"
    by (simp add: w1_def Box_new_def new_object_def Counted_def Counted_body_def app0_def)
  have two: "Box_new 0 Counted w1 = (Inr (Obj 11), w2)"
    by (simp add: w2_def w1_def Box_new_def new_object_def Counted_def Counted_body_def app0_def)
  have r: "runs (user w2) = 2"
    by (simp add: w2_def w1_def Box_new_def new_object_def Counted_def Counted_body_def app0_def)
  define u1 where "u1 = snd (ctor Single (nextref app0) [] (app0\<lparr>nextref := Suc (nextref app0)\<rparr>))"
  define u2 where "u2 = snd (ctor Single (nextref u1) [] (u1\<lparr>nextref := Suc (nextref u1)\<rparr>))"
  have sb1: "ctor Single (nextref app0) [] (app0\<lparr>nextref := Suc (nextref app0)\<rparr>) = (Inr (Obj 5), u1)"
    by (simp add: u1_def Single_def Single_body_def)
  have sb2: "ctor Single (nextref u1) [] (u1\<lparr>nextref := Suc (nextref u1)\<rparr>) = (Inr (Obj 5), u2)"
    by (simp add: u2_def Single_def Single_body_def)
  have ru: "runs (user u2) = 2"
    by (simp add: u2_def u1_def Single_def Single_body_def app0_def)
  from Box_new_transient [of WithInit WithInit_init 0 app0 "Str ''from init''" app0
      "Str ''from init''" app0] i
  have "Box_new 0 WithInit app0 = WithInit_init 0 app0"
    and "map_args (Box_new 0) [WithInit, WithInit] app0
      = (Inr [Str ''from init'', Str ''from init''], app0)"
    by (simp_all add: WithInit_init_def)
  moreover from Box_new_transient [of Counted _ 0 app0 "Obj 10" w1 "Obj 11" w2] c m p one two
  have "Obj 10 \<noteq> Obj 11"
    by blast
  moreover have "producer_cache_frame Counted"
    by (simp add: producer_cache_frame_def cache_frame_def Counted_def Counted_body_def)
  with Box_new_transient [of Counted _ 0 w1] Box_new_transient [of Counted _ 0 app0]
  have "caches (snd (Box_new 0 Counted w1)) = caches w1"
    "caches (snd (Box_new 0 Counted app0)) = caches app0"
    by blast+
  moreover from Box_new_transient [of Single _ 0 app0 _ _ _ _ "Obj 5" u1] s sb1
  have "Box_new 0 Single app0
      = (Inr (if is_object (Obj 5) then Obj 5 else Obj (nextref app0)), u1)"
    by blast
  moreover from Box_new_transient [of Single _ 0 u1 _ _ _ _ "Obj 5" u2] s sb2
  have "Box_new 0 Single u1 = (Inr (if is_object (Obj 5) then Obj 5 else Obj (nextref u1)), u2)"
    by blast
  ultimately show ?thesis
    using one two r ru by (simp add: WithInit_init_def)
qed

text \<open>
  C10. A producer with an \<open>init\<close> member is created by \<open>init\<close> applied to the container,
  by \<open>Box.new\<close> and by \<open>Box.get\<close> on a miss; the outcome is the same whatever constructor
  the producer has, so the constructor is not run. Only a producer without \<open>init\<close> is
  constructed, with no arguments.
\<close>

theorem init_takes_precedence:
  "(init P = Some f \<longrightarrow>
      Box_new b P w = f b w \<and>
      Box_new b (P\<lparr>ctor := c\<rparr>) w = Box_new b P w \<and>
      Box_get b (P\<lparr>ctor := c\<rparr>) w = Box_get b P w \<and>
      (caches w b (ident P) = None \<longrightarrow>
         Box_get b P w =
           (case f b w of
              (Inl e, w') \<Rightarrow> (Inl e, w')
            | (Inr v, w') \<Rightarrow> (Inr v, cache_set b (ident P) v w')))) \<and>
   (init P = None \<longrightarrow> Box_new b P w = new_object (ctor P) [] w)"
  by (simp add: Box_new_def Box_get_def split: option.splits prod.splits sum.splits)

theorem init_takes_precedence_witness:
  "Box_new 0 WithInit app0 = (Inr (Str ''from init''), app0) \<and>
   fst (Box_get 0 WithInit app0) = Inr (Str ''from init'') \<and>
   runs (user (snd (Box_get 0 WithInit app0))) = 0 \<and>
   fst (Box_new 0 Counted app0) = Inr (Obj 10)"
proof -
  have i: "init WithInit = Some WithInit_init" and c: "init Counted = None"
    by (simp_all add: WithInit_def Counted_def)
  have miss: "caches app0 0 (ident WithInit) = None"
    by (simp add: app0_def)
  from init_takes_precedence [of WithInit WithInit_init 0 app0] i miss
  have "Box_new 0 WithInit app0 = WithInit_init 0 app0"
    and "Box_get 0 WithInit app0 =
      (case WithInit_init 0 app0 of
         (Inl e, w') \<Rightarrow> (Inl e, w')
       | (Inr v, w') \<Rightarrow> (Inr v, cache_set 0 (ident WithInit) v w'))"
    by blast+
  moreover from init_takes_precedence [of Counted _ 0 app0] c
  have "Box_new 0 Counted app0 = new_object (ctor Counted) [] app0"
    by blast
  ultimately show ?thesis
    by (simp add: WithInit_init_def new_object_def Counted_def Counted_body_def app0_def)
qed

text \<open>
  C9. After \<open>Box.mock(box, P, V)\<close>, \<open>box.new(P)\<close> is still the creation logic, run on the
  state that holds the override: \<open>init\<close> applied to the container, or \<open>new P()\<close>, whose
  value is what the constructor returns or else the new object; for a plain constructor
  that is the object it allocates and so not \<open>V\<close>. \<open>box.get(P)\<close> returns \<open>V\<close>.
\<close>

theorem mock_spares_transient:
  "(init P = Some f \<longrightarrow> Box_new b P (Box_mock b P V w) = f b (Box_mock b P V w)) \<and>
   (init P = None \<longrightarrow>
      Box_new b P (Box_mock b P V w) = new_object (ctor P) [] (Box_mock b P V w) \<and>
      (ctor P (nextref w) [] ((Box_mock b P V w)\<lparr>nextref := Suc (nextref w)\<rparr>) = (Inr r, w') \<longrightarrow>
         Box_new b P (Box_mock b P V w) = (Inr (if is_object r then r else Obj (nextref w)), w')) \<and>
      (plain_constructor (ctor P) \<longrightarrow> V \<noteq> Obj (nextref w) \<longrightarrow>
         fst (Box_new b P (Box_mock b P V w)) \<noteq> Inr V)) \<and>
   Box_get b P (Box_mock b P V w) = (Inr V, Box_mock b P V w)"
proof (intro conjI impI)
  assume "init P = Some f"
  then show "Box_new b P (Box_mock b P V w) = f b (Box_mock b P V w)"
    by (simp add: Box_new_def)
next
  assume "init P = None"
  then show "Box_new b P (Box_mock b P V w) = new_object (ctor P) [] (Box_mock b P V w)"
    by (simp add: Box_new_def)
next
  have n: "nextref (Box_mock b P V w) = nextref w"
    by (simp add: Box_mock_def)
  assume "init P = None"
    "ctor P (nextref w) [] ((Box_mock b P V w)\<lparr>nextref := Suc (nextref w)\<rparr>) = (Inr r, w')"
  then show "Box_new b P (Box_mock b P V w)
      = (Inr (if is_object r then r else Obj (nextref w)), w')"
    using new_object_result [of "ctor P" "Box_mock b P V w" "[]" r w']
    by (simp add: Box_new_def n)
next
  assume cls: "init P = None" and plain: "plain_constructor (ctor P)"
    and old: "V \<noteq> Obj (nextref w)"
  show "fst (Box_new b P (Box_mock b P V w)) \<noteq> Inr V"
  proof
    assume "fst (Box_new b P (Box_mock b P V w)) = Inr V"
    then obtain w' where "new_object (ctor P) [] (Box_mock b P V w) = (Inr V, w')"
      using cls by (cases "Box_new b P (Box_mock b P V w)") (simp add: Box_new_def)
    with plain have "V = Obj (nextref (Box_mock b P V w))"
      by (rule new_object_value)
    with old show False
      by (simp add: Box_mock_def)
  qed
next
  show "Box_get b P (Box_mock b P V w) = (Inr V, Box_mock b P V w)"
    by (simp add: Box_get_after_mock)
qed

theorem mock_spares_transient_witness:
  "fst (Box_get 0 Counted (Box_mock 0 Counted (Str ''mocked'') app0)) = Inr (Str ''mocked'') \<and>
   runs (user (snd (Box_get 0 Counted (Box_mock 0 Counted (Str ''mocked'') app0)))) = 0 \<and>
   fst (Box_new 0 Counted (Box_mock 0 Counted (Str ''mocked'') app0)) = Inr (Obj 10) \<and>
   fst (Box_new 0 Counted (Box_mock 0 Counted (Str ''mocked'') app0)) \<noteq> Inr (Str ''mocked'') \<and>
   runs (user (snd (Box_new 0 Counted (Box_mock 0 Counted (Str ''mocked'') app0)))) = 1 \<and>
   fst (Box_new 0 WithInit (Box_mock 0 WithInit (Str ''mocked'') app0)) = Inr (Str ''from init'') \<and>
   fst (Box_new 0 Single (Box_mock 0 Single (Str ''mocked'') app0)) = Inr (Obj 5)"
proof -
  have i: "init WithInit = Some WithInit_init" and c: "init Counted = None"
    and s: "init Single = None"
    by (simp_all add: WithInit_def Counted_def Single_def)
  have old: "Str ''mocked'' \<noteq> Obj (nextref app0)"
    by simp
  have p: "plain_constructor (ctor Counted)"
    by (simp add: plain_constructor_def Counted_def Counted_body_def)
  define u where "u = snd (ctor Single (nextref app0) []
    ((Box_mock 0 Single (Str ''mocked'') app0)\<lparr>nextref := Suc (nextref app0)\<rparr>))"
  have sb: "ctor Single (nextref app0) []
      ((Box_mock 0 Single (Str ''mocked'') app0)\<lparr>nextref := Suc (nextref app0)\<rparr>) = (Inr (Obj 5), u)"
    by (simp add: u_def Single_def Single_body_def)
  from mock_spares_transient [of Counted _ 0 "Str ''mocked''" app0] c old p
  have "Box_new 0 Counted (Box_mock 0 Counted (Str ''mocked'') app0) =
      new_object (ctor Counted) [] (Box_mock 0 Counted (Str ''mocked'') app0)"
    and "fst (Box_new 0 Counted (Box_mock 0 Counted (Str ''mocked'') app0)) \<noteq> Inr (Str ''mocked'')"
    and "Box_get 0 Counted (Box_mock 0 Counted (Str ''mocked'') app0) =
      (Inr (Str ''mocked''), Box_mock 0 Counted (Str ''mocked'') app0)"
    by blast+
  moreover from mock_spares_transient [of WithInit WithInit_init 0 "Str ''mocked''" app0] i
  have "Box_new 0 WithInit (Box_mock 0 WithInit (Str ''mocked'') app0) =
      WithInit_init 0 (Box_mock 0 WithInit (Str ''mocked'') app0)"
    by blast
  moreover from mock_spares_transient [of Single _ 0 "Str ''mocked''" app0 "Obj 5" u] s sb
  have "Box_new 0 Single (Box_mock 0 Single (Str ''mocked'') app0)
      = (Inr (if is_object (Obj 5) then Obj 5 else Obj (nextref app0)), u)"
    by blast
  ultimately show ?thesis
    by (simp add: WithInit_init_def new_object_def Counted_def Counted_body_def app0_def
        Box_mock_def cache_set_def)
qed

section \<open>Resolution of a list of producers\<close>

lemma map_args_length:
  "map_args f ps w = (Inr vs, w') \<Longrightarrow> length vs = length ps"
  by (induction ps arbitrary: w vs) (auto split: prod.splits sum.splits)

lemma map_args_nth:
  "map_args f ps w = (Inr vs, w') \<Longrightarrow> i < length ps \<Longrightarrow>
   \<exists>wi wi'. map_args f (take i ps) w = (Inr (take i vs), wi) \<and> f (ps ! i) wi = (Inr (vs ! i), wi')"
proof (induction ps arbitrary: w vs i)
  case Nil
  then show ?case by simp
next
  case (Cons p ps)
  from Cons.prems(1) obtain v wa vs' where
    p: "f p w = (Inr v, wa)" and rest: "map_args f ps wa = (Inr vs', w')" and vs: "vs = v # vs'"
    by (auto split: prod.splits sum.splits)
  show ?case
  proof (cases i)
    case 0
    with p vs show ?thesis by simp
  next
    case (Suc j)
    with Cons.prems(2) have "j < length ps" by simp
    from Cons.IH [OF rest this] obtain wi wi' where
      "map_args f (take j ps) wa = (Inr (take j vs'), wi)" "f (ps ! j) wi = (Inr (vs' ! j), wi')"
      by blast
    with p vs Suc show ?thesis by simp
  qed
qed

lemma map_args_throws:
  "i < length ps \<Longrightarrow> map_args f (take i ps) w = (Inr us, wi) \<Longrightarrow> f (ps ! i) wi = (Inl e, wi') \<Longrightarrow>
   map_args f ps w = (Inl e, wi')"
proof (induction ps arbitrary: w us i)
  case Nil
  then show ?case by simp
next
  case (Cons p ps)
  show ?case
  proof (cases i)
    case 0
    with Cons.prems show ?thesis by simp
  next
    case (Suc j)
    with Cons.prems(2) obtain v wa us' where
      p: "f p w = (Inr v, wa)" and pre: "map_args f (take j ps) wa = (Inr us', wi)"
      by (auto split: prod.splits sum.splits)
    from Suc Cons.prems(1,3) have "j < length ps" "f (ps ! j) wi = (Inl e, wi')"
      by simp_all
    from Cons.IH [OF this(1) pre this(2)] p show ?thesis
      by simp
  qed
qed

lemma map_args_invariant:
  assumes "\<And>p w. p \<in> set ps \<Longrightarrow> Q w \<Longrightarrow> Q (snd (f p w))" and "Q w"
  shows "Q (snd (map_args f ps w))"
  using assms
proof (induction ps arbitrary: w)
  case Nil
  then show ?case by simp
next
  case (Cons p ps)
  from Cons.prems have step: "Q (snd (f p w))"
    by simp
  show ?case
  proof (cases "f p w")
    case (Pair r wa)
    with step have wa: "Q wa" by simp
    show ?thesis
    proof (cases r)
      case (Inl e)
      with Pair wa show ?thesis by simp
    next
      case (Inr x)
      have "Q (snd (map_args f ps wa))"
        using Cons.prems(1) wa by (intro Cons.IH) simp_all
      with Pair Inr show ?thesis
        by (auto split: prod.splits sum.splits)
    qed
  qed
qed

lemma map_args_returns:
  "\<forall>p\<in>set ps. \<forall>w. \<not> isl (fst (f p w)) \<Longrightarrow> \<not> isl (fst (map_args f ps w))"
proof (induction ps arbitrary: w)
  case Nil
  then show ?case by simp
next
  case (Cons p ps)
  then have p: "\<not> isl (fst (f p w))" and ih: "\<And>w. \<not> isl (fst (map_args f ps w))"
    by simp_all
  obtain r wa where fp: "f p w = (r, wa)"
    by (cases "f p w")
  with p obtain v where r: "r = Inr v"
    by (cases r) simp_all
  obtain r' wb where rest: "map_args f ps wa = (r', wb)"
    by (cases "map_args f ps wa")
  with ih [of wa] obtain vs where "r' = Inr vs"
    by (cases r') simp_all
  with fp r rest show ?case
    by simp
qed

lemma new_object_returns:
  "\<forall>this args w. \<not> isl (fst (body this args w)) \<Longrightarrow> \<not> isl (fst (new_object body args w))"
proof -
  assume "\<forall>this args w. \<not> isl (fst (body this args w))"
  then have "\<not> isl (fst (body (nextref w) args (w\<lparr>nextref := Suc (nextref w)\<rparr>)))"
    by blast
  then show ?thesis
    by (auto simp: new_object_def Let_def split: prod.splits sum.splits)
qed

lemma Box_new_alloc_mono:
  "producer_alloc_mono p \<Longrightarrow> nextref w \<le> nextref (snd (Box_new b p w))"
proof (cases "init p")
  case None
  assume "producer_alloc_mono p"
  with None have "alloc_mono (ctor p (nextref w) [])"
    by (simp add: producer_alloc_mono_def)
  then have "nextref w < nextref (snd (new_object (ctor p) [] w))"
    by (rule new_object_allocates)
  with None show ?thesis
    by (simp add: Box_new_def)
next
  case (Some f)
  assume "producer_alloc_mono p"
  with Some show ?thesis
    by (simp add: producer_alloc_mono_def Box_new_def alloc_mono_def)
qed

lemma Box_new_class_fresh:
  assumes "producer_alloc_mono p" and "init p = None" and "plain_constructor (ctor p)"
    and "Box_new b p w = (Inr v, w')"
  shows "v = Obj (nextref w) \<and> nextref w < nextref w'"
proof -
  from assms(2,4) have n: "new_object (ctor p) [] w = (Inr v, w')"
    by (simp add: Box_new_def)
  from assms(1,2) have "alloc_mono (ctor p (nextref w) [])"
    by (simp add: producer_alloc_mono_def)
  then have "nextref w < nextref (snd (new_object (ctor p) [] w))"
    by (rule new_object_allocates)
  with n new_object_value [OF assms(3) n] show ?thesis by simp
qed

lemma map_args_new_fresh:
  assumes "\<forall>p\<in>set ps. producer_alloc_mono p"
    and "map_args (Box_new b) ps w = (Inr vs, w')"
  shows "nextref w \<le> nextref w' \<and>
         (\<forall>i<length ps. init (ps ! i) = None \<longrightarrow> plain_constructor (ctor (ps ! i)) \<longrightarrow>
            (\<exists>r. vs ! i = Obj r \<and> nextref w \<le> r \<and> r < nextref w'))"
  using assms
proof (induction ps arbitrary: w vs)
  case Nil
  then show ?case by simp
next
  case (Cons p ps)
  from Cons.prems(2) obtain v wa vs' where
    p: "Box_new b p w = (Inr v, wa)" and rest: "map_args (Box_new b) ps wa = (Inr vs', w')"
    and vs: "vs = v # vs'"
    by (auto split: prod.splits sum.splits)
  from Cons.prems(1) have pm: "producer_alloc_mono p" and "\<forall>p\<in>set ps. producer_alloc_mono p"
    by simp_all
  from Cons.IH [OF this(2) rest] have
    le: "nextref wa \<le> nextref w'" and
    ih: "\<forall>i<length ps. init (ps ! i) = None \<longrightarrow> plain_constructor (ctor (ps ! i)) \<longrightarrow>
           (\<exists>r. vs' ! i = Obj r \<and> nextref wa \<le> r \<and> r < nextref w')"
    by blast+
  from Box_new_alloc_mono [OF pm, of w b] p have le0: "nextref w \<le> nextref wa"
    by simp
  have "\<exists>r. vs ! i = Obj r \<and> nextref w \<le> r \<and> r < nextref w'"
    if "i < length (p # ps)" and "init ((p # ps) ! i) = None"
      and "plain_constructor (ctor ((p # ps) ! i))" for i
  proof (cases i)
    case 0
    with that have "init p = None" "plain_constructor (ctor p)" by simp_all
    from Box_new_class_fresh [OF pm this p] le vs 0 show ?thesis by simp
  next
    case (Suc j)
    with that ih obtain r where "vs' ! j = Obj r" "nextref wa \<le> r" "r < nextref w'"
      by auto
    with le0 vs Suc show ?thesis by simp
  qed
  with le le0 show ?case by simp
qed

lemma map_args_new_cache_frame:
  "\<forall>p\<in>set ps. producer_cache_frame p \<Longrightarrow> caches (snd (map_args (Box_new b) ps w)) = caches w"
  by (rule map_args_invariant [where Q = "\<lambda>w'. caches w' = caches w"])
    (simp_all add: Box_new_cache_frame)

section \<open>The builder's \<open>new\<close>\<close>

lemma Construct_new_unfold:
  "Construct_new (Box_for b T) ps w =
     (case map_args (Box_new b) ps w of
        (Inl e, w') \<Rightarrow> (Inl e, w')
      | (Inr vs, w') \<Rightarrow> new_object T vs w')"
  by (simp add: Construct_new_def Box_for_def split: prod.splits sum.splits)

lemma Construct_new_fresh:
  assumes deps: "\<forall>p\<in>set ps. producer_alloc_mono p"
    and plain: "plain_constructor T"
    and target: "\<forall>this args. alloc_mono (T this args)"
    and res: "map_args (Box_new b) ps w = (Inr vs, w')"
    and call: "Construct_new (Box_for b T) ps w = (Inr t, w1)"
  shows "t = Obj (nextref w') \<and> nextref w \<le> nextref w' \<and> nextref w' < nextref w1 \<and>
      (\<forall>i<length ps. init (ps ! i) = None \<longrightarrow> plain_constructor (ctor (ps ! i)) \<longrightarrow>
          (\<exists>r. vs ! i = Obj r \<and> nextref w \<le> r \<and> r < nextref w')) \<and>
      (\<forall>qs t2 w2. Construct_new (Box_for b T) qs w1 = (Inr t2, w2) \<longrightarrow>
          (\<forall>q\<in>set qs. producer_alloc_mono q) \<longrightarrow> t2 \<noteq> t)"
proof -
  from call res have obj: "new_object T vs w' = (Inr t, w1)"
    by (simp add: Construct_new_unfold)
  from map_args_new_fresh [OF deps res] have
    le: "nextref w \<le> nextref w'" and
    fresh: "\<forall>i<length ps. init (ps ! i) = None \<longrightarrow> plain_constructor (ctor (ps ! i)) \<longrightarrow>
          (\<exists>r. vs ! i = Obj r \<and> nextref w \<le> r \<and> r < nextref w')"
    by blast+
  have t: "t = Obj (nextref w')"
    using plain obj by (rule new_object_value)
  from target have "alloc_mono (T (nextref w') vs)"
    by blast
  then have "nextref w' < nextref (snd (new_object T vs w'))"
    by (rule new_object_allocates)
  with obj have lt: "nextref w' < nextref w1"
    by simp
  have again: "t2 \<noteq> t"
    if "Construct_new (Box_for b T) qs w1 = (Inr t2, w2)" and "\<forall>q\<in>set qs. producer_alloc_mono q"
    for qs t2 w2
  proof -
    from that(1) obtain us w2' where
      res2: "map_args (Box_new b) qs w1 = (Inr us, w2')" and obj2: "new_object T us w2' = (Inr t2, w2)"
      by (auto simp: Construct_new_unfold split: prod.splits sum.splits)
    from map_args_new_fresh [OF that(2) res2] have "nextref w1 \<le> nextref w2'"
      by blast
    with new_object_value [OF plain obj2] t lt show ?thesis
      by simp
  qed
  from t le lt fresh again show ?thesis
    by blast
qed

lemma Construct_new_cache_frame:
  assumes "\<forall>p\<in>set ps. producer_cache_frame p" and "\<forall>this args. cache_frame (T this args)"
  shows "caches (snd (Construct_new (Box_for b T) ps w)) = caches w"
proof -
  from assms(1) have m: "caches (snd (map_args (Box_new b) ps w)) = caches w"
    by (rule map_args_new_cache_frame)
  have "caches (snd (new_object T vs w')) = caches w'" for vs w'
    using assms(2) by (intro new_object_cache_frame) simp
  with m show ?thesis
    by (auto simp: Construct_new_unfold split: prod.splits sum.splits)
qed

lemma Construct_new_returns:
  assumes "\<forall>p\<in>set ps. \<forall>w. \<not> isl (fst (Box_new b p w))"
    and "\<forall>this args w. \<not> isl (fst (T this args w))"
  shows "\<not> isl (fst (Construct_new (Box_for b T) ps w))"
proof -
  from assms(1) have "\<not> isl (fst (map_args (Box_new b) ps w))"
    by (rule map_args_returns)
  moreover have "\<not> isl (fst (new_object T vs w'))" for vs w'
    using assms(2) by (rule new_object_returns)
  ultimately show ?thesis
    by (auto simp: Construct_new_unfold split: prod.splits sum.splits)
qed

text \<open>
  C3, as amended. \<open>Box.for(T).new(p_1, ..., p_n)\<close> resolves every producer with \<open>Box.new\<close>,
  the \<open>i\<close>-th one in the state left by the ones before it, and ends with the first throw
  among them; otherwise it is \<open>new T(v_1, ..., v_n)\<close> on the values in that order, whose
  value is what \<open>T\<close>'s constructor returns or else the new object. It returns whenever the
  creation logic and the constructor do. When \<open>T\<close>'s constructor is plain, the instance is
  the object allocated for this call, so it is no object that existed before, and a later
  call returns another one; the value of a class with a plain constructor among the
  producers is allocated during the call as well, so it is not an instance that a cache
  held before the call. The builder writes no cache: when the application code run leaves
  the caches alone, they are unchanged.
\<close>

theorem Construct_new_transient:
  "Construct_new (Box_for b T) ps w =
     (case map_args (Box_new b) ps w of
        (Inl e, w') \<Rightarrow> (Inl e, w')
      | (Inr vs, w') \<Rightarrow> new_object T vs w') \<and>
   (\<forall>i us wi e wi'. i < length ps \<longrightarrow>
      map_args (Box_new b) (take i ps) w = (Inr us, wi) \<longrightarrow>
      Box_new b (ps ! i) wi = (Inl e, wi') \<longrightarrow>
      Construct_new (Box_for b T) ps w = (Inl e, wi')) \<and>
   (\<forall>vs w'. map_args (Box_new b) ps w = (Inr vs, w') \<longrightarrow>
      length vs = length ps \<and>
      (\<forall>i<length ps. \<exists>wi wi'.
          map_args (Box_new b) (take i ps) w = (Inr (take i vs), wi) \<and>
          Box_new b (ps ! i) wi = (Inr (vs ! i), wi')) \<and>
      Construct_new (Box_for b T) ps w = new_object T vs w' \<and>
      (\<forall>r w1. T (nextref w') vs (w'\<lparr>nextref := Suc (nextref w')\<rparr>) = (Inr r, w1) \<longrightarrow>
          Construct_new (Box_for b T) ps w
            = (Inr (if is_object r then r else Obj (nextref w')), w1)) \<and>
      (\<forall>e w1. T (nextref w') vs (w'\<lparr>nextref := Suc (nextref w')\<rparr>) = (Inl e, w1) \<longrightarrow>
          Construct_new (Box_for b T) ps w = (Inl e, w1))) \<and>
   ((\<forall>p\<in>set ps. \<forall>w. \<not> isl (fst (Box_new b p w))) \<longrightarrow>
    (\<forall>this args w. \<not> isl (fst (T this args w))) \<longrightarrow>
      \<not> isl (fst (Construct_new (Box_for b T) ps w))) \<and>
   ((\<forall>p\<in>set ps. producer_alloc_mono p) \<longrightarrow> plain_constructor T \<longrightarrow>
    (\<forall>this args. alloc_mono (T this args)) \<longrightarrow>
      (\<forall>vs w' t w1. map_args (Box_new b) ps w = (Inr vs, w') \<longrightarrow>
         Construct_new (Box_for b T) ps w = (Inr t, w1) \<longrightarrow>
         t = Obj (nextref w') \<and> nextref w \<le> nextref w' \<and> nextref w' < nextref w1 \<and>
         (\<forall>i<length ps. init (ps ! i) = None \<longrightarrow> plain_constructor (ctor (ps ! i)) \<longrightarrow>
             (\<exists>r. vs ! i = Obj r \<and> nextref w \<le> r \<and> r < nextref w')) \<and>
         (\<forall>qs t2 w2. Construct_new (Box_for b T) qs w1 = (Inr t2, w2) \<longrightarrow>
             (\<forall>q\<in>set qs. producer_alloc_mono q) \<longrightarrow> t2 \<noteq> t))) \<and>
   ((\<forall>p\<in>set ps. producer_cache_frame p) \<longrightarrow> (\<forall>this args. cache_frame (T this args)) \<longrightarrow>
      caches (snd (Construct_new (Box_for b T) ps w)) = caches w)"
proof (intro conjI)
  show "Construct_new (Box_for b T) ps w =
     (case map_args (Box_new b) ps w of
        (Inl e, w') \<Rightarrow> (Inl e, w')
      | (Inr vs, w') \<Rightarrow> new_object T vs w')"
    by (rule Construct_new_unfold)
next
  show "\<forall>i us wi e wi'. i < length ps \<longrightarrow>
      map_args (Box_new b) (take i ps) w = (Inr us, wi) \<longrightarrow>
      Box_new b (ps ! i) wi = (Inl e, wi') \<longrightarrow>
      Construct_new (Box_for b T) ps w = (Inl e, wi')"
  proof (intro allI impI)
    fix i us wi e wi'
    assume "i < length ps" "map_args (Box_new b) (take i ps) w = (Inr us, wi)"
      "Box_new b (ps ! i) wi = (Inl e, wi')"
    then have "map_args (Box_new b) ps w = (Inl e, wi')"
      by (rule map_args_throws)
    then show "Construct_new (Box_for b T) ps w = (Inl e, wi')"
      by (simp add: Construct_new_unfold)
  qed
next
  show "\<forall>vs w'. map_args (Box_new b) ps w = (Inr vs, w') \<longrightarrow>
      length vs = length ps \<and>
      (\<forall>i<length ps. \<exists>wi wi'.
          map_args (Box_new b) (take i ps) w = (Inr (take i vs), wi) \<and>
          Box_new b (ps ! i) wi = (Inr (vs ! i), wi')) \<and>
      Construct_new (Box_for b T) ps w = new_object T vs w' \<and>
      (\<forall>r w1. T (nextref w') vs (w'\<lparr>nextref := Suc (nextref w')\<rparr>) = (Inr r, w1) \<longrightarrow>
          Construct_new (Box_for b T) ps w
            = (Inr (if is_object r then r else Obj (nextref w')), w1)) \<and>
      (\<forall>e w1. T (nextref w') vs (w'\<lparr>nextref := Suc (nextref w')\<rparr>) = (Inl e, w1) \<longrightarrow>
          Construct_new (Box_for b T) ps w = (Inl e, w1))"
  proof (intro allI impI conjI)
    fix vs w'
    assume res: "map_args (Box_new b) ps w = (Inr vs, w')"
    show "length vs = length ps"
      using res by (rule map_args_length)
    show "Construct_new (Box_for b T) ps w = new_object T vs w'"
      using res by (simp add: Construct_new_unfold)
    show "\<exists>wi wi'. map_args (Box_new b) (take i ps) w = (Inr (take i vs), wi) \<and>
          Box_new b (ps ! i) wi = (Inr (vs ! i), wi')" if "i < length ps" for i
      using res that by (rule map_args_nth)
    show "Construct_new (Box_for b T) ps w
            = (Inr (if is_object r then r else Obj (nextref w')), w1)"
      if "T (nextref w') vs (w'\<lparr>nextref := Suc (nextref w')\<rparr>) = (Inr r, w1)" for r w1
      using res new_object_result [of T w' vs r w1] that by (simp add: Construct_new_unfold)
    show "Construct_new (Box_for b T) ps w = (Inl e, w1)"
      if "T (nextref w') vs (w'\<lparr>nextref := Suc (nextref w')\<rparr>) = (Inl e, w1)" for e w1
      using res that by (simp add: Construct_new_unfold new_object_def)
  qed
next
  show "(\<forall>p\<in>set ps. \<forall>w. \<not> isl (fst (Box_new b p w))) \<longrightarrow>
    (\<forall>this args w. \<not> isl (fst (T this args w))) \<longrightarrow>
      \<not> isl (fst (Construct_new (Box_for b T) ps w))"
    using Construct_new_returns by blast
next
  show "(\<forall>p\<in>set ps. producer_alloc_mono p) \<longrightarrow> plain_constructor T \<longrightarrow>
    (\<forall>this args. alloc_mono (T this args)) \<longrightarrow>
      (\<forall>vs w' t w1. map_args (Box_new b) ps w = (Inr vs, w') \<longrightarrow>
         Construct_new (Box_for b T) ps w = (Inr t, w1) \<longrightarrow>
         t = Obj (nextref w') \<and> nextref w \<le> nextref w' \<and> nextref w' < nextref w1 \<and>
         (\<forall>i<length ps. init (ps ! i) = None \<longrightarrow> plain_constructor (ctor (ps ! i)) \<longrightarrow>
             (\<exists>r. vs ! i = Obj r \<and> nextref w \<le> r \<and> r < nextref w')) \<and>
         (\<forall>qs t2 w2. Construct_new (Box_for b T) qs w1 = (Inr t2, w2) \<longrightarrow>
             (\<forall>q\<in>set qs. producer_alloc_mono q) \<longrightarrow> t2 \<noteq> t))"
    by (intro impI allI) (rule Construct_new_fresh)
next
  show "(\<forall>p\<in>set ps. producer_cache_frame p) \<longrightarrow> (\<forall>this args. cache_frame (T this args)) \<longrightarrow>
      caches (snd (Construct_new (Box_for b T) ps w)) = caches w"
    using Construct_new_cache_frame by blast
qed

lemmas fixture_defs =
  app0_def app1_def app3_def Counted_def Counted_body_def WithInit_def WithInit_init_def Holder_body_def
  Flaky_def Flaky_init_def Single_def Single_body_def Meddler_def Meddler_init_def
  SelfMock_def SelfMock_init_def

lemmas container_defs =
  Box_new_def Box_get_def Box_mock_def Box_for_def Construct_new_def Construct_get_def
  new_object_def cache_set_def

theorem Construct_new_transient_witness:
  "caches app1 0 (ident Counted) = Some (Obj 10) \<and>
   fst (Construct_new (Box_for 0 Holder_body) [Counted, WithInit] app1) = Inr (Obj 12) \<and>
   props (user (snd (Construct_new (Box_for 0 Holder_body) [Counted, WithInit] app1))) 12
     = [Obj 11, Str ''from init''] \<and>
   caches (snd (Construct_new (Box_for 0 Holder_body) [Counted, WithInit] app1)) = caches app1 \<and>
   fst (Construct_new (Box_for 0 Holder_body) [Counted, WithInit]
         (snd (Construct_new (Box_for 0 Holder_body) [Counted, WithInit] app1))) \<noteq> Inr (Obj 12) \<and>
   \<not> isl (fst (Construct_new (Box_for 0 Holder_body) [Counted, WithInit, Counted] app1)) \<and>
   fst (Construct_new (Box_for 0 Holder_body) [Flaky, Counted] app0) = Inl (Str ''boom'') \<and>
   runs (user (snd (Construct_new (Box_for 0 Holder_body) [Flaky, Counted] app0))) = 1"
proof -
  let ?c = "Box_for 0 Holder_body" and ?ps = "[Counted, WithInit]"
  have deps: "\<forall>p\<in>set ?ps. producer_alloc_mono p"
    by (simp add: producer_alloc_mono_def alloc_mono_def fixture_defs)
  have plain: "plain_constructor Holder_body"
    by (simp add: plain_constructor_def fixture_defs)
  have target: "\<forall>this args. alloc_mono (Holder_body this args)"
    by (simp add: alloc_mono_def fixture_defs)
  have fdeps: "\<forall>p\<in>set ?ps. producer_cache_frame p"
    by (simp add: producer_cache_frame_def cache_frame_def fixture_defs)
  have ftarget: "\<forall>this args. cache_frame (Holder_body this args)"
    by (simp add: cache_frame_def fixture_defs)
  have rdeps: "\<forall>p\<in>set [Counted, WithInit, Counted]. \<forall>w. \<not> isl (fst (Box_new 0 p w))"
    by (simp add: container_defs fixture_defs Let_def)
  have rtarget: "\<forall>this args w. \<not> isl (fst (Holder_body this args w))"
    by (simp add: fixture_defs)
  define w' where "w' = snd (map_args (Box_new 0) ?ps app1)"
  define w1 where "w1 = snd (Construct_new ?c ?ps app1)"
  have res: "map_args (Box_new 0) ?ps app1 = (Inr [Obj 11, Str ''from init''], w')"
    by (simp add: w'_def container_defs fixture_defs)
  have call: "Construct_new ?c ?ps app1 = (Inr (Obj 12), w1)"
    and fields: "props (user w1) 12 = [Obj 11, Str ''from init'']"
    by (simp_all add: w1_def container_defs fixture_defs)
  obtain t2 w2 where call2: "Construct_new ?c ?ps w1 = (Inr t2, w2)"
    by (simp add: w1_def container_defs fixture_defs)
  note inst = Construct_new_transient [of 0 Holder_body ?ps app1]
  note fresh = inst [THEN conjunct2, THEN conjunct2, THEN conjunct2, THEN conjunct2,
      THEN conjunct1, THEN mp, OF deps, THEN mp, OF plain, THEN mp, OF target,
      THEN spec, THEN spec, THEN spec, THEN spec, THEN mp, OF res, THEN mp, OF call]
  from fresh deps call2
  have "t2 \<noteq> Obj 12"
    by blast
  moreover note inst [THEN conjunct2, THEN conjunct2, THEN conjunct2, THEN conjunct2,
      THEN conjunct2, THEN mp, OF fdeps, THEN mp, OF ftarget]
  moreover note Construct_new_transient [of 0 Holder_body "[Counted, WithInit, Counted]" app1,
      THEN conjunct2, THEN conjunct2, THEN conjunct2, THEN conjunct1,
      THEN mp, OF rdeps, THEN mp, OF rtarget]
  moreover have "caches app1 0 (ident Counted) = Some (Obj 10)"
    by (simp add: container_defs fixture_defs)
  moreover have "Construct_new ?c [Flaky, Counted] app0
      = (Inl (Str ''boom''), app0\<lparr>user := (user app0)\<lparr>runs := 1\<rparr>\<rparr>)"
  proof -
    have h1: "(0::nat) < length [Flaky, Counted]"
      and h2: "map_args (Box_new 0) (take 0 [Flaky, Counted]) app0 = (Inr [], app0)"
      and h3: "Box_new 0 ([Flaky, Counted] ! 0) app0
        = (Inl (Str ''boom''), app0\<lparr>user := (user app0)\<lparr>runs := 1\<rparr>\<rparr>)"
      by (simp_all add: Box_new_def Flaky_def Flaky_init_def app0_def)
    show ?thesis
      by (rule Construct_new_transient [of 0 Holder_body "[Flaky, Counted]" app0,
            THEN conjunct2, THEN conjunct1, THEN spec, THEN spec, THEN spec, THEN spec,
            THEN spec, THEN mp, OF h1, THEN mp, OF h2, THEN mp, OF h3])
  qed
  ultimately show ?thesis
    using call call2 fields by (simp add: app0_def)
qed

text \<open>
  C3 as stated fails in two ways. \<open>Config\<close> has the cache entry \<open>Obj 5\<close>, and
  \<open>box.for(Holder).new(Config)\<close> passes that same object to \<open>Holder\<close>'s constructor: the
  dependency is the cached instance. And \<open>box.for(Single).new()\<close> returns the same object
  on two successive calls, as \<open>Single\<close>'s constructor returns it.
\<close>

theorem fresh_dependency_counterexample:
  "caches app2 0 (ident Config) = Some (Obj 5) \<and>
   fst (Box_get 0 Config app2) = Inr (Obj 5) \<and>
   fst (Construct_new (Box_for 0 Holder_body) [Config] app2) = Inr (Obj 11) \<and>
   props (user (snd (Construct_new (Box_for 0 Holder_body) [Config] app2))) 11 = [Obj 5] \<and>
   fst (Construct_new (Box_for 0 Single_body) [] app0) = Inr (Obj 5) \<and>
   fst (Construct_new (Box_for 0 Single_body) []
         (snd (Construct_new (Box_for 0 Single_body) [] app0))) = Inr (Obj 5)"
  by (simp add: container_defs fixture_defs Config_def app2_def constant_of_def)

section \<open>The builder's \<open>get\<close>\<close>
















section \<open>Identity\<close>






section \<open>Persistence of entries\<close>
















end
